theory Spec2Isabelle
  imports Complex_Main
begin

section \<open>The model trainer of train.py\<close>

text \<open>
  A shallow embedding of the class \<open>ModelTrainer\<close> of \<^verbatim>\<open>src/train.py\<close>: the evaluation
  routine, the pseudo-label generator, one training epoch and the two training drivers.
  The object \<open>self\<close> is a record that every method takes and returns; an exception is a
  value \<open>Inl e\<close> of a sum type, and it ends the method as the \<^verbatim>\<open>raise\<close> does.

  What the program leaves to its libraries stays a parameter: the forward pass of the
  network, the cross-entropy of one example, one optimiser step, the plateau reducer and
  the data loader's \<^verbatim>\<open>ssl_init_epoch\<close>. Scores, losses and learning rates are exact
  rationals here, where the program has 32-bit floats; text printed on the terminal and
  the TensorBoard writer are not modelled. The library calls are modelled on well-typed
  data: every row of class scores has the same positive number of classes and every
  target is a class index (torch raises otherwise). The global \<^verbatim>\<open>args\<close> that \<open>evaluate\<close>
  and the generator read for \<^verbatim>\<open>args.cuda\<close> is the one the script binds before it builds
  the trainer.
\<close>

subsection \<open>Values\<close>

datatype error =
    ZeroDivisionError
  | UnboundLocalError
  | TypeError
  | AttributeError
  | ValueError
  | UnknownOptimiser

text \<open>
  The result of a float division: a number, or not-a-number (\<^verbatim>\<open>0.0 / 0\<close> on tensors
  does not raise). A comparison with not-a-number is false.
\<close>

datatype fnum = Fin rat | NaN

fun fge :: "fnum \<Rightarrow> fnum \<Rightarrow> bool" where
  "fge (Fin a) (Fin b) = (b \<le> a)"
| "fge _ _ = False"

text \<open>Division of a tensor by the Python int \<open>n\<close>; the numerator is 0 whenever \<open>n\<close> is.\<close>

definition tensor_div :: "rat \<Rightarrow> int \<Rightarrow> fnum" where
  "tensor_div x n = (if n = 0 then NaN else Fin (x / of_int n))"

text \<open>
  Modelled from the spec: \<^verbatim>\<open>utils.convert_for_print\<close> is not under src/. The spec has the
  best record updated to the accuracy itself, so the conversion (a tensor to a Python
  float) keeps the value.
\<close>

definition convert_for_print :: "fnum \<Rightarrow> fnum" where
  "convert_for_print x = x"

subsection \<open>Batches, the data loader and the network\<close>

text \<open>
  A batch is the collation of its examples: \<open>(image, target, index)\<close> each, so the three
  tensors \<^verbatim>\<open>images, targets, indices\<close> of a batch have one length.
\<close>

type_synonym 'img example = "'img \<times> int \<times> int"
type_synonym 'img batch = "'img example list"

definition images :: "'img batch \<Rightarrow> 'img list" where
  "images b = map fst b"

definition targets :: "'img batch \<Rightarrow> int list" where
  "targets b = map (\<lambda>(x, t, i). t) b"

definition indices :: "'img batch \<Rightarrow> int list" where
  "indices b = map (\<lambda>(x, t, i). i) b"

record 'img dataloader =
  train_loader :: "'img batch list"
  val_loader :: "'img batch list"
  test_loader :: "'img batch list"
  unsupervised_train_loader :: "'img batch list"
  stop_label_generation :: bool

text \<open>
  The collaborators: \<open>forward m x\<close> is \<^verbatim>\<open>self.model(images)\<close> on one example, the pair
  \<^verbatim>\<open>(logits, unnormalised_scores)\<close>; \<open>cross_entropy z t\<close> is the loss of one example, which
  \<^verbatim>\<open>reduction="sum"\<close> adds up over the batch; \<open>train_step lr m b\<close> is one optimiser step
  on a batch (\<^verbatim>\<open>zero_grad\<close>, forward, \<^verbatim>\<open>backward\<close>, \<^verbatim>\<open>opt.step\<close>) at learning rate
  \<open>lr\<close>, returning the new parameters and the batch loss; \<open>reducer_step\<close> is
  \<^verbatim>\<open>ReduceLROnPlateau.step\<close>, from the validation loss, the parameters (with the
  reducer's own counters) and the learning rate; \<open>ssl_init_epoch\<close> is the data loader's
  method of that name.
\<close>

record ('m, 'img) collab =
  forward :: "'m \<Rightarrow> 'img \<Rightarrow> rat list \<times> rat list"
  cross_entropy :: "rat list \<Rightarrow> int \<Rightarrow> rat"
  train_step :: "rat \<Rightarrow> 'm \<Rightarrow> 'img batch \<Rightarrow> 'm \<times> rat"
  reducer_step :: "fnum \<Rightarrow> 'm \<Rightarrow> rat \<Rightarrow> 'm \<times> rat"
  ssl_init_epoch :: "int list \<Rightarrow> int list \<Rightarrow> 'img dataloader \<Rightarrow> 'img dataloader"

text \<open>
  \<^verbatim>\<open>logits.max(1)[1]\<close>: the index of the largest score of a row, the first one among
  equals.
\<close>

fun argmax_from :: "int \<Rightarrow> rat \<Rightarrow> int \<Rightarrow> rat list \<Rightarrow> int" where
  "argmax_from best_i best_v i [] = best_i"
| "argmax_from best_i best_v i (x # xs) =
     (if best_v < x then argmax_from i x (i + 1) xs
      else argmax_from best_i best_v (i + 1) xs)"

definition argmax :: "rat list \<Rightarrow> int" where
  "argmax row = (case row of [] \<Rightarrow> 0 | x # xs \<Rightarrow> argmax_from 0 x 1 xs)"

definition pred :: "('m, 'img) collab \<Rightarrow> 'm \<Rightarrow> 'img \<Rightarrow> int" where
  "pred c m x = argmax (fst (forward c m x))"

subsection \<open>Configuration and the trainer\<close>

record args =
  eval_only :: bool
  eval_checkpoint :: string
  epochs :: int
  log_interval :: int
  checkpoint_save_interval :: int
  optimiser :: string
  learning_rate :: rat
  lr_scheduler :: bool
  lr_schedule :: "int list"
  lr_decay_factor :: rat
  lr_reducer :: bool
  filelogger :: bool
  tensorboard :: bool

record logger =
  train_loss_per_iter :: "(int \<times> fnum) list"
  train_loss_per_epoch :: "(int \<times> fnum) list"
  val_loss_per_iter :: "(int \<times> fnum) list"
  val_loss_per_epoch :: "(int \<times> fnum) list"
  val_accuracy_per_iter :: "(int \<times> fnum) list"
  val_accuracy_per_epoch :: "(int \<times> fnum) list"
  test_loss :: "(int \<times> fnum) list"
  test_accuracy :: "(int \<times> fnum) list"
  best_epoch :: "int option"
  logged_best_test_accuracy :: fnum
  ssl_loss :: "(int \<times> fnum) list"
  ssl_accuracy :: "(int \<times> fnum) list"
  ssl_correct :: "(int \<times> int) list"

text \<open>
  The calls the two drivers make, in order: the trace of a run. \<open>TrainVal e lr\<close> is
  \<^verbatim>\<open>self.train_val(e)\<close>, entered with the optimiser at learning rate \<open>lr\<close>;
  \<open>TorchSave e\<close> is the checkpoint written at the end of epoch \<open>e\<close>.
\<close>

datatype event =
    SslInitEpoch "int list" "int list"
  | TrainVal int rat
  | EvaluateTest int
  | GenerateLabels int
  | SchedulerStep
  | TorchSave int
  | TimerTic
  | WriterClose
  | WriteLogToJson

text \<open>
  \<open>self\<close>, with \<^verbatim>\<open>self.args\<close> passed beside it, since no method changes it. The
  constructor makes the optimiser, the schedulers, \<^verbatim>\<open>self.logger\<close> and \<^verbatim>\<open>self.writer\<close> only
  when \<^verbatim>\<open>args.eval\<close> is false (\<open>eval_only\<close> here), so in evaluation-only mode a method that
  reaches for one of them raises \<open>AttributeError\<close>. \<open>last_epoch\<close> is the counter of the
  \<^verbatim>\<open>MultiStepLR\<close> scheduler and \<open>lr\<close> the learning rate of the optimiser it drives.
\<close>

record ('m, 'img) trainer =
  model :: 'm
  dataloader :: "'img dataloader"
  best_test_accuracy :: fnum
  best_test_epoch :: "int option"
  logger :: logger
  iter :: int
  lr :: rat
  last_epoch :: int
  events :: "event list"

subsection \<open>evaluate\<close>

text \<open>
  The three counters of the loop, and the number of batches taken from the loader.
  \<open>loss\<close> and \<open>correct\<close> are the Python ints 0 until the first batch adds a tensor to them.
\<close>

record running =
  loss :: rat
  correct :: int
  n_examples :: int
  consumed :: nat

definition running0 :: running where
  "running0 = \<lparr>loss = 0, correct = 0, n_examples = 0, consumed = 0\<rparr>"

definition add_batch :: "('m, 'img) collab \<Rightarrow> 'm \<Rightarrow> 'img batch \<Rightarrow> running \<Rightarrow> running" where
  "add_batch c m b r =
     \<lparr>loss = loss r + (\<Sum>(x, t, i) \<leftarrow> b. cross_entropy c (snd (forward c m x)) t),
      correct = correct r + int (length (filter (\<lambda>(x, t, i). pred c m x = t) b)),
      n_examples = n_examples r + int (length b),
      consumed = Suc (consumed r)\<rparr>"

text \<open>\<^verbatim>\<open>if n_batches and (batch_idx >= n_batches): break\<close>; \<open>None\<close> and 0 are false.\<close>

definition cap_reached :: "int option \<Rightarrow> int \<Rightarrow> bool" where
  "cap_reached n_batches batch_idx =
     (case n_batches of None \<Rightarrow> False | Some n \<Rightarrow> n \<noteq> 0 \<and> n \<le> batch_idx)"

fun eval_batches ::
  "('m, 'img) collab \<Rightarrow> 'm \<Rightarrow> int option \<Rightarrow> int \<Rightarrow> 'img batch list \<Rightarrow> running \<Rightarrow> running" where
  "eval_batches c m n_batches batch_idx [] r = r"
| "eval_batches c m n_batches batch_idx (b # bs) r =
     (let r' = add_batch c m b r in
      if cap_reached n_batches batch_idx then r'
      else eval_batches c m n_batches (batch_idx + 1) bs r')"

definition loader_of :: "string \<Rightarrow> 'img dataloader \<Rightarrow> error + 'img batch list" where
  "loader_of split dl =
     (if split = ''Val'' then Inr (val_loader dl)
      else if split = ''Test'' then Inr (test_loader dl)
      else Inl UnboundLocalError)"

text \<open>
  \<^verbatim>\<open>loss /= n_examples\<close> and the accuracy: with no batch, \<open>0 / 0\<close> on Python ints raises;
  after a batch both are tensor divisions.
\<close>

definition finalize :: "running \<Rightarrow> error + fnum \<times> fnum" where
  "finalize r =
     (if consumed r = 0 then Inl ZeroDivisionError
      else Inr (tensor_div (loss r) (n_examples r),
                tensor_div (100 * of_int (correct r)) (n_examples r)))"

definition update_best ::
  "args \<Rightarrow> string \<Rightarrow> int option \<Rightarrow> fnum \<Rightarrow> ('m, 'img) trainer \<Rightarrow> error + ('m, 'img) trainer" where
  "update_best a split epoch acc s =
     (if split = ''Test'' \<and> fge acc (best_test_accuracy s) then
        let s1 = s\<lparr>best_test_accuracy := convert_for_print acc, best_test_epoch := epoch\<rparr>
        in if filelogger a then
             if eval_only a then Inl AttributeError
             else Inr (s1\<lparr>logger := (logger s1)\<lparr>best_epoch := best_test_epoch s1,
                                  logged_best_test_accuracy := best_test_accuracy s1\<rparr>\<rparr>)
           else Inr s1
      else Inr s)"

text \<open>
  The \<^verbatim>\<open>if verbose:\<close> block. The second \<^verbatim>\<open>print\<close> formats \<^verbatim>\<open>self.best_test_epoch\<close> with
  \<^verbatim>\<open>%d\<close>, which raises on \<^verbatim>\<open>None\<close>.
\<close>

definition report ::
  "args \<Rightarrow> int option \<Rightarrow> fnum \<Rightarrow> fnum \<Rightarrow> ('m, 'img) trainer \<Rightarrow> error + ('m, 'img) trainer" where
  "report a epoch l acc s =
     (let (e, s1) = (case epoch of None \<Rightarrow> (0, s\<lparr>best_test_epoch := Some 0\<rparr>)
                                 | Some e \<Rightarrow> (e, s))
      in if best_test_epoch s1 = None then Inl TypeError
         else if (filelogger a \<or> tensorboard a) \<and> eval_only a then Inl AttributeError
         else if filelogger a then
           Inr (s1\<lparr>logger := (logger s1)
                  \<lparr>test_loss := test_loss (logger s1) @ [(e, convert_for_print l)],
                   test_accuracy := test_accuracy (logger s1) @ [(e, convert_for_print acc)]\<rparr>\<rparr>)
         else Inr s1)"

definition evaluate ::
  "args \<Rightarrow> ('m, 'img) collab \<Rightarrow> string \<Rightarrow> int option \<Rightarrow> bool \<Rightarrow> int option \<Rightarrow>
   ('m, 'img) trainer \<Rightarrow> error + ('m, 'img) trainer \<times> fnum \<times> fnum" where
  "evaluate a c split epoch verbose n_batches s =
     (case loader_of split (dataloader s) of
        Inl e \<Rightarrow> Inl e
      | Inr loader \<Rightarrow>
          (case finalize (eval_batches c (model s) n_batches 0 loader running0) of
             Inl e \<Rightarrow> Inl e
           | Inr (l, acc) \<Rightarrow>
               (case update_best a split epoch acc s of
                  Inl e \<Rightarrow> Inl e
                | Inr s1 \<Rightarrow>
                    if verbose then
                      (case report a epoch l acc s1 of
                         Inl e \<Rightarrow> Inl e
                       | Inr s2 \<Rightarrow> Inr (s2, convert_for_print l, convert_for_print acc))
                    else Inr (s1, l, acc))))"

subsection \<open>generate_labels_for_ssl\<close>

text \<open>
  The loop of the generator: the counters of \<open>evaluate\<close>, and the two lists that each
  batch extends by its indices and its predictions.
\<close>

fun gen_batches ::
  "('m, 'img) collab \<Rightarrow> 'm \<Rightarrow> int option \<Rightarrow> int \<Rightarrow> 'img batch list \<Rightarrow>
   running \<times> int list \<times> int list \<Rightarrow> running \<times> int list \<times> int list" where
  "gen_batches c m n_batches batch_idx [] st = st"
| "gen_batches c m n_batches batch_idx (b # bs) (r, predictions_indices, predictions_labels) =
     (let r' = add_batch c m b r;
          predictions_indices' = predictions_indices @ indices b;
          predictions_labels' = predictions_labels @ map (pred c m) (images b)
      in if cap_reached n_batches batch_idx
         then (r', predictions_indices', predictions_labels')
         else gen_batches c m n_batches (batch_idx + 1) bs
                (r', predictions_indices', predictions_labels'))"

definition ssl_report ::
  "args \<Rightarrow> int \<Rightarrow> fnum \<Rightarrow> fnum \<Rightarrow> int \<Rightarrow> ('m, 'img) trainer \<Rightarrow> error + ('m, 'img) trainer" where
  "ssl_report a epoch l acc n_correct s =
     (if (filelogger a \<or> tensorboard a) \<and> eval_only a then Inl AttributeError
      else if filelogger a then
        Inr (s\<lparr>logger := (logger s)
               \<lparr>ssl_loss := ssl_loss (logger s) @ [(epoch, convert_for_print l)],
                ssl_accuracy := ssl_accuracy (logger s) @ [(epoch, convert_for_print acc)],
                ssl_correct := ssl_correct (logger s) @ [(epoch, n_correct)]\<rparr>\<rparr>)
      else Inr s)"

definition generate_labels_for_ssl ::
  "args \<Rightarrow> ('m, 'img) collab \<Rightarrow> int \<Rightarrow> int option \<Rightarrow> bool \<Rightarrow>
   ('m, 'img) trainer \<Rightarrow> error + ('m, 'img) trainer \<times> int list \<times> int list" where
  "generate_labels_for_ssl a c epoch n_batches verbose s =
     (let (r, predictions_indices, predictions_labels) =
            gen_batches c (model s) n_batches 0
              (unsupervised_train_loader (dataloader s)) (running0, [], [])
      in (case finalize r of
            Inl e \<Rightarrow> Inl e
          | Inr (l, acc) \<Rightarrow>
              if verbose then
                (case ssl_report a epoch l acc (correct r) s of
                   Inl e \<Rightarrow> Inl e
                 | Inr s1 \<Rightarrow> Inr (s1, predictions_indices, predictions_labels))
              else Inr (s, predictions_indices, predictions_labels)))"

subsection \<open>train_val\<close>

text \<open>
  The local variables of \<open>train_val\<close> that are read after the loop; \<open>None\<close> is a name not
  yet bound, and reading it raises \<open>UnboundLocalError\<close>.
\<close>

record locals =
  train_loss :: "fnum option"
  val_loss :: "fnum option"
  val_acc :: "fnum option"

definition log_iter ::
  "args \<Rightarrow> fnum \<Rightarrow> fnum \<Rightarrow> fnum \<Rightarrow> ('m, 'img) trainer \<Rightarrow> ('m, 'img) trainer" where
  "log_iter a t_loss v_loss v_acc s =
     (if filelogger a then
        s\<lparr>logger := (logger s)
           \<lparr>train_loss_per_iter := train_loss_per_iter (logger s) @ [(iter s, t_loss)],
            val_loss_per_iter := val_loss_per_iter (logger s) @ [(iter s, v_loss)],
            val_accuracy_per_iter := val_accuracy_per_iter (logger s) @ [(iter s, v_acc)]\<rparr>\<rparr>
      else s)"

text \<open>
  The loop over \<^verbatim>\<open>enumerate(self.dataloader.train_loader)\<close>. \<^verbatim>\<open>self.opt\<close> is the first
  attribute it needs that evaluation-only mode lacks; \<^verbatim>\<open>batch_idx % log_interval\<close> raises
  when the interval is 0.
\<close>

fun train_batches ::
  "args \<Rightarrow> ('m, 'img) collab \<Rightarrow> int \<Rightarrow> 'img batch list \<Rightarrow>
   ('m, 'img) trainer \<times> locals \<Rightarrow> error + ('m, 'img) trainer \<times> locals" where
  "train_batches a c batch_idx [] st = Inr st"
| "train_batches a c batch_idx (b # bs) (s, v) =
     (if eval_only a then Inl AttributeError
      else
        let (m', batch_loss) = train_step c (lr s) (model s) b;
            s1 = s\<lparr>model := m', iter := iter s + 1\<rparr>
        in if log_interval a = 0 then Inl ZeroDivisionError
           else if batch_idx mod log_interval a = 0 then
             (case evaluate a c ''Val'' None False (Some 4) s1 of
                Inl e \<Rightarrow> Inl e
              | Inr (s2, v_loss, v_acc) \<Rightarrow>
                  let t_loss = convert_for_print (Fin batch_loss);
                      v_loss' = convert_for_print v_loss;
                      v_acc' = convert_for_print v_acc
                  in train_batches a c (batch_idx + 1) bs
                       (log_iter a t_loss v_loss' v_acc' s2,
                        \<lparr>train_loss = Some t_loss, val_loss = Some v_loss', val_acc = Some v_acc'\<rparr>))
           else train_batches a c (batch_idx + 1) bs (s1, v))"

text \<open>The plateau reducer at the end of the epoch: a full validation pass, then its step.\<close>

definition reduce_on_plateau ::
  "args \<Rightarrow> ('m, 'img) collab \<Rightarrow> ('m, 'img) trainer \<times> locals \<Rightarrow>
   error + ('m, 'img) trainer \<times> locals" where
  "reduce_on_plateau a c st =
     (case st of (s, v) \<Rightarrow>
        if lr_reducer a then
          (case evaluate a c ''Val'' None False None s of
             Inl e \<Rightarrow> Inl e
           | Inr (s1, v_loss, v_acc) \<Rightarrow>
               if eval_only a then Inl AttributeError
               else
                 let (m', lr') = reducer_step c v_loss (model s1) (lr s1)
                 in Inr (s1\<lparr>model := m', lr := lr'\<rparr>, v\<lparr>val_loss := Some v_loss, val_acc := Some v_acc\<rparr>))
        else Inr (s, v))"

text \<open>
  The end of \<open>train_val\<close>: \<^verbatim>\<open>val_loss\<close> and \<^verbatim>\<open>val_acc\<close> are read, then \<^verbatim>\<open>train_loss\<close> when
  one of the two logs is on.
\<close>

definition log_epoch ::
  "args \<Rightarrow> int \<Rightarrow> locals \<Rightarrow> ('m, 'img) trainer \<Rightarrow> error + ('m, 'img) trainer" where
  "log_epoch a epoch v s =
     (case (val_loss v, val_acc v) of
        (Some v_loss, Some v_acc) \<Rightarrow>
          if filelogger a \<or> tensorboard a then
            if eval_only a then Inl AttributeError
            else
              (case train_loss v of
                 None \<Rightarrow> Inl UnboundLocalError
               | Some t_loss \<Rightarrow>
                   if filelogger a then
                     Inr (s\<lparr>logger := (logger s)
                            \<lparr>train_loss_per_epoch := train_loss_per_epoch (logger s) @ [(epoch, t_loss)],
                             val_loss_per_epoch :=
                               val_loss_per_epoch (logger s) @ [(epoch, convert_for_print v_loss)],
                             val_accuracy_per_epoch :=
                               val_accuracy_per_epoch (logger s) @ [(epoch, convert_for_print v_acc)]\<rparr>\<rparr>)
                   else Inr s)
          else Inr s
      | _ \<Rightarrow> Inl UnboundLocalError)"

definition train_val ::
  "args \<Rightarrow> ('m, 'img) collab \<Rightarrow> int \<Rightarrow> ('m, 'img) trainer \<Rightarrow> error + ('m, 'img) trainer" where
  "train_val a c epoch s =
     (case train_batches a c 0 (train_loader (dataloader s))
             (s, \<lparr>train_loss = None, val_loss = None, val_acc = None\<rparr>) of
        Inl e \<Rightarrow> Inl e
      | Inr st \<Rightarrow>
          (case reduce_on_plateau a c st of
             Inl e \<Rightarrow> Inl e
           | Inr (s1, v) \<Rightarrow> log_epoch a epoch v s1))"

subsection \<open>The step-wise schedule\<close>

text \<open>
  \<^verbatim>\<open>torch.optim.lr_scheduler.MultiStepLR\<close>, a class of the library: every \<^verbatim>\<open>step()\<close> adds
  one to its counter \<^verbatim>\<open>last_epoch\<close> and multiplies the learning rate by \<^verbatim>\<open>gamma\<close> once for
  each occurrence of the new counter among the milestones. The constructor leaves the
  counter at 0.
\<close>

definition scheduler_step :: "args \<Rightarrow> ('m, 'img) trainer \<Rightarrow> ('m, 'img) trainer" where
  "scheduler_step a s =
     (let e = last_epoch s + 1
      in s\<lparr>last_epoch := e, lr := lr s * lr_decay_factor a ^ count_list (lr_schedule a) e\<rparr>)"

subsection \<open>The constructor\<close>

definition logger0 :: logger where
  "logger0 =
     \<lparr>train_loss_per_iter = [], train_loss_per_epoch = [], val_loss_per_iter = [],
      val_loss_per_epoch = [], val_accuracy_per_iter = [], val_accuracy_per_epoch = [],
      test_loss = [], test_accuracy = [], best_epoch = Some 0,
      logged_best_test_accuracy = Fin 0, ssl_loss = [], ssl_accuracy = [], ssl_correct = []\<rparr>"

text \<open>
  \<^verbatim>\<open>__init__\<close> for the modes that train or evaluate a network, given the network (the
  loaded checkpoint in evaluation-only mode) and the data loader. \<^verbatim>\<open>self.iter\<close> is set by
  the drivers.
\<close>

definition init :: "args \<Rightarrow> 'm \<Rightarrow> 'img dataloader \<Rightarrow> error + ('m, 'img) trainer" where
  "init a m dl =
     (if eval_only a \<and> eval_checkpoint a = [] then Inl ValueError
      else if \<not> eval_only a \<and> optimiser a \<noteq> ''sgd'' \<and> optimiser a \<noteq> ''adam''
      then Inl UnknownOptimiser
      else Inr \<lparr>model = m, dataloader = dl, best_test_accuracy = Fin 0,
                best_test_epoch = Some 0, logger = logger0, iter = 0,
                lr = (if lr_scheduler a
                      then learning_rate a * lr_decay_factor a ^ count_list (lr_schedule a) 0
                      else learning_rate a),
                last_epoch = 0, events = []\<rparr>)"

subsection \<open>The drivers\<close>

definition emit :: "event \<Rightarrow> ('m, 'img) trainer \<Rightarrow> ('m, 'img) trainer" where
  "emit ev s = s\<lparr>events := events s @ [ev]\<rparr>"

text \<open>
  The end of an epoch, the same lines in both drivers: the step of the schedule, the
  checkpoint when \<^verbatim>\<open>epoch % checkpoint_save_interval == 0\<close> (Python's \<^verbatim>\<open>%\<close> is \<open>mod\<close> on
  \<open>int\<close>, and raises on 0), the timer.
\<close>

definition finish_epoch :: "args \<Rightarrow> int \<Rightarrow> ('m, 'img) trainer \<Rightarrow> error + ('m, 'img) trainer" where
  "finish_epoch a epoch s =
     (if lr_scheduler a \<and> eval_only a then Inl AttributeError
      else
        let s1 = (if lr_scheduler a then scheduler_step a (emit SchedulerStep s) else s)
        in if checkpoint_save_interval a = 0 then Inl ZeroDivisionError
           else if epoch mod checkpoint_save_interval a = 0
           then Inr (emit TimerTic (emit (TorchSave epoch) s1))
           else Inr (emit TimerTic s1))"

text \<open>After the loop: the writer is closed and the log written, each once.\<close>

definition close_out :: "args \<Rightarrow> ('m, 'img) trainer \<Rightarrow> error + ('m, 'img) trainer" where
  "close_out a s =
     (if (tensorboard a \<or> filelogger a) \<and> eval_only a then Inl AttributeError
      else if tensorboard a \<and> filelogger a \<and> best_epoch (logger s) = None then Inl TypeError
      else
        let s1 = (if tensorboard a then emit WriterClose s else s)
        in Inr (if filelogger a then emit WriteLogToJson s1 else s1))"

definition supervised_epoch ::
  "args \<Rightarrow> ('m, 'img) collab \<Rightarrow> int \<Rightarrow> ('m, 'img) trainer \<Rightarrow> error + ('m, 'img) trainer" where
  "supervised_epoch a c epoch s =
     (case train_val a c epoch (emit (TrainVal epoch (lr s)) s) of
        Inl e \<Rightarrow> Inl e
      | Inr s1 \<Rightarrow>
          (case evaluate a c ''Test'' (Some epoch) True None (emit (EvaluateTest epoch) s1) of
             Inl e \<Rightarrow> Inl e
           | Inr (s2, l, acc) \<Rightarrow> finish_epoch a epoch s2))"

fun train_epochs ::
  "args \<Rightarrow> ('m, 'img) collab \<Rightarrow> int list \<Rightarrow> ('m, 'img) trainer \<Rightarrow> error + ('m, 'img) trainer" where
  "train_epochs a c [] s = Inr s"
| "train_epochs a c (epoch # rest) s =
     (case supervised_epoch a c epoch s of
        Inl e \<Rightarrow> Inl e
      | Inr s1 \<Rightarrow> train_epochs a c rest s1)"

definition train_val_test ::
  "args \<Rightarrow> ('m, 'img) collab \<Rightarrow> ('m, 'img) trainer \<Rightarrow> error + ('m, 'img) trainer" where
  "train_val_test a c s =
     (case train_epochs a c [1..epochs a] (s\<lparr>iter := 0\<rparr>) of
        Inl e \<Rightarrow> Inl e
      | Inr s1 \<Rightarrow> close_out a s1)"

text \<open>
  One epoch of the semi-supervised driver, on the trainer and the two local lists
  \<^verbatim>\<open>predictions_indices, predictions_labels\<close>. The flag \<^verbatim>\<open>stop_label_generation\<close> is read
  twice; iterating a loader reads the data loader and leaves it as it is, so only
  \<^verbatim>\<open>ssl_init_epoch\<close> can change the flag.
\<close>

definition ssl_epoch ::
  "args \<Rightarrow> ('m, 'img) collab \<Rightarrow> int \<Rightarrow> ('m, 'img) trainer \<times> int list \<times> int list \<Rightarrow>
   error + ('m, 'img) trainer \<times> int list \<times> int list" where
  "ssl_epoch a c epoch st =
     (case st of (s, predictions_indices, predictions_labels) \<Rightarrow>
        let s0 = (if \<not> stop_label_generation (dataloader s)
                  then emit (SslInitEpoch predictions_indices predictions_labels)
                         (s\<lparr>dataloader :=
                              ssl_init_epoch c predictions_indices predictions_labels (dataloader s)\<rparr>)
                  else s)
        in (case train_val a c epoch (emit (TrainVal epoch (lr s0)) s0) of
              Inl e \<Rightarrow> Inl e
            | Inr s1 \<Rightarrow>
                (case evaluate a c ''Test'' (Some epoch) True None (emit (EvaluateTest epoch) s1) of
                   Inl e \<Rightarrow> Inl e
                 | Inr (s2, l, acc) \<Rightarrow>
                     (case (if \<not> stop_label_generation (dataloader s2)
                            then generate_labels_for_ssl a c epoch (Some 4) True
                                   (emit (GenerateLabels epoch) s2)
                            else Inr (s2, predictions_indices, predictions_labels)) of
                        Inl e \<Rightarrow> Inl e
                      | Inr (s3, predictions_indices', predictions_labels') \<Rightarrow>
                          (case finish_epoch a epoch s3 of
                             Inl e \<Rightarrow> Inl e
                           | Inr s4 \<Rightarrow> Inr (s4, predictions_indices', predictions_labels'))))))"

fun ssl_epochs ::
  "args \<Rightarrow> ('m, 'img) collab \<Rightarrow> int list \<Rightarrow> ('m, 'img) trainer \<times> int list \<times> int list \<Rightarrow>
   error + ('m, 'img) trainer \<times> int list \<times> int list" where
  "ssl_epochs a c [] st = Inr st"
| "ssl_epochs a c (epoch # rest) st =
     (case ssl_epoch a c epoch st of
        Inl e \<Rightarrow> Inl e
      | Inr st' \<Rightarrow> ssl_epochs a c rest st')"

text \<open>
  The driver returns nothing in the program; here it returns the trainer and the two
  lists as the loop left them.
\<close>

definition ssl_train_val_test ::
  "args \<Rightarrow> ('m, 'img) collab \<Rightarrow> ('m, 'img) trainer \<Rightarrow>
   error + ('m, 'img) trainer \<times> int list \<times> int list" where
  "ssl_train_val_test a c s =
     (case ssl_epochs a c [1..epochs a]
             (s\<lparr>iter := 0, dataloader := (dataloader s)\<lparr>stop_label_generation := False\<rparr>\<rparr>, [], []) of
        Inl e \<Rightarrow> Inl e
      | Inr (s1, predictions_indices, predictions_labels) \<Rightarrow>
          (case close_out a s1 of
             Inl e \<Rightarrow> Inl e
           | Inr s2 \<Rightarrow> Inr (s2, predictions_indices, predictions_labels)))"

subsection \<open>Concrete data\<close>

text \<open>
  A network on images that are integers: it scores class 0 highest on image 0 and
  class 1 on every other image. Its data loader's \<open>ssl_init_epoch\<close> raises the stop flag.
\<close>

definition toy_collab :: "(unit, int) collab" where
  "toy_collab =
     \<lparr>forward = (\<lambda>m x. ([if x = 0 then 1 else 0, if x = 0 then 0 else 1], [0, 0])),
      cross_entropy = (\<lambda>z t. 1 / 2),
      train_step = (\<lambda>r m b. (m, 1)),
      reducer_step = (\<lambda>l m r. (m, r)),
      ssl_init_epoch = (\<lambda>p_idx p_lab dl. dl\<lparr>stop_label_generation := True\<rparr>)\<rparr>"

definition toy_args :: args where
  "toy_args =
     \<lparr>eval_only = False, eval_checkpoint = [], epochs = 12, log_interval = 10,
      checkpoint_save_interval = 5, optimiser = ''sgd'', learning_rate = 1 / 10,
      lr_scheduler = True, lr_schedule = [3, 6], lr_decay_factor = 1 / 10,
      lr_reducer = False, filelogger = True, tensorboard = False\<rparr>"

definition toy_dataloader :: "int dataloader" where
  "toy_dataloader =
     \<lparr>train_loader = [[(0, 0, 0)]], val_loader = [[(0, 0, 1)]],
      test_loader = [[(0, 0, 2), (1, 0, 3)]],
      unsupervised_train_loader = [[(0, 0, 4)], [(1, 1, 5)]],
      stop_label_generation = False\<rparr>"

definition toy_trainer :: "(unit, int) trainer" where
  "toy_trainer =
     \<lparr>model = (), dataloader = toy_dataloader, best_test_accuracy = Fin 0,
      best_test_epoch = Some 0, logger = logger0, iter = 0, lr = 1 / 10, last_epoch = 0,
      events = []\<rparr>"

text \<open>The evaluation-only entry point: a checkpoint is given and no log is kept.\<close>

definition toy_eval_args :: args where
  "toy_eval_args =
     toy_args\<lparr>eval_only := True, eval_checkpoint := ''best.checkpoint'', filelogger := False\<rparr>"

subsection \<open>Notions the properties are stated with\<close>

text \<open>
  The batches a capped loop takes from a loader: all of them without a cap (\<open>None\<close> or
  0), the first \<open>n + 1\<close> with the cap \<open>n > 0\<close>, the first with a negative cap.
\<close>

definition consumed_batches :: "int option \<Rightarrow> 'a list \<Rightarrow> 'a list" where
  "consumed_batches n_batches loader =
     (case n_batches of
        None \<Rightarrow> loader
      | Some n \<Rightarrow> if n = 0 then loader else take (nat n + 1) loader)"

text \<open>What \<open>train_val\<close> leaves alone.\<close>

definition same_run :: "('m, 'img) trainer \<Rightarrow> ('m, 'img) trainer \<Rightarrow> bool" where
  "same_run s s' \<longleftrightarrow>
     dataloader s' = dataloader s \<and> events s' = events s \<and>
     best_test_accuracy s' = best_test_accuracy s \<and> best_test_epoch s' = best_test_epoch s \<and>
     last_epoch s' = last_epoch s"

text \<open>
  The calls of one epoch of the supervised driver, entered at learning rate \<open>r\<close>; an
  epoch of the semi-supervised driver makes the same ones once the labels are frozen.
\<close>

definition epoch_calls :: "args \<Rightarrow> int \<Rightarrow> rat \<Rightarrow> event list" where
  "epoch_calls a e r =
     [TrainVal e r, EvaluateTest e] @
     (if lr_scheduler a then [SchedulerStep] else []) @
     (if e mod checkpoint_save_interval a = 0 then [TorchSave e] else []) @
     [TimerTic]"

text \<open>The epochs at which a trace writes a checkpoint.\<close>

fun saved_epochs :: "event list \<Rightarrow> int list" where
  "saved_epochs [] = []"
| "saved_epochs (TorchSave e # evs) = e # saved_epochs evs"
| "saved_epochs (ev # evs) = saved_epochs evs"

text \<open>The learning rates at which a trace enters \<open>train_val\<close>, epoch by epoch.\<close>

fun train_lrs :: "event list \<Rightarrow> rat list" where
  "train_lrs [] = []"
| "train_lrs (TrainVal e r # evs) = r # train_lrs evs"
| "train_lrs (ev # evs) = train_lrs evs"

text \<open>
  The learning rates of \<open>n\<close> successive epochs under the step-wise schedule alone, from
  the rate \<open>r\<close> and the counter \<open>k\<close>: the driver steps the schedule once after each.
\<close>

fun sched_lrs :: "args \<Rightarrow> rat \<Rightarrow> int \<Rightarrow> nat \<Rightarrow> rat list" where
  "sched_lrs a r k 0 = []"
| "sched_lrs a r k (Suc n) =
     r # sched_lrs a (r * lr_decay_factor a ^ count_list (lr_schedule a) (k + 1)) (k + 1) n"

section \<open>Properties\<close>

subsection \<open>The loops\<close>

lemma eval_batches_uncapped:
  "\<not> (\<exists>n. n_batches = Some n \<and> n \<noteq> 0) \<Longrightarrow>
   eval_batches c m n_batches i bs r = fold (add_batch c m) bs r"
  by (induction bs arbitrary: i r) (auto simp: cap_reached_def Let_def split: option.splits)

lemma eval_batches_capped:
  "n \<noteq> 0 \<Longrightarrow>
   eval_batches c m (Some n) i bs r = fold (add_batch c m) (take (nat (n - i) + 1) bs) r"
proof (induction bs arbitrary: i r)
  case Nil
  then show ?case by simp
next
  case (Cons b bs)
  show ?case
  proof (cases "n \<le> i")
    case True
    then show ?thesis using Cons.prems by (simp add: cap_reached_def)
  next
    case False
    then have "nat (n - i) = Suc (nat (n - (i + 1)))" by simp
    then show ?thesis using False Cons.prems Cons.IH [of "i + 1"]
      by (simp add: cap_reached_def Let_def)
  qed
qed

lemma eval_batches_fold:
  "eval_batches c m n_batches 0 bs r = fold (add_batch c m) (consumed_batches n_batches bs) r"
proof (cases "\<exists>n. n_batches = Some n \<and> n \<noteq> 0")
  case True
  then show ?thesis by (auto simp: consumed_batches_def eval_batches_capped)
next
  case False
  then show ?thesis
    by (auto simp: consumed_batches_def eval_batches_uncapped split: option.splits)
qed

lemma fold_add_batch_consumed:
  "consumed (fold (add_batch c m) bs r) = consumed r + length bs"
  by (induction bs arbitrary: r) (simp_all add: add_batch_def)

lemma fold_add_batch_n_examples:
  "n_examples (fold (add_batch c m) bs r) = n_examples r + int (length (concat bs))"
  by (induction bs arbitrary: r) (simp_all add: add_batch_def)

lemma fold_add_batch_correct:
  "correct (fold (add_batch c m) bs r) =
   correct r + int (length (filter (\<lambda>(x, t, i). pred c m x = t) (concat bs)))"
  by (induction bs arbitrary: r) (simp_all add: add_batch_def)

lemma fold_add_batch_loss:
  "loss (fold (add_batch c m) bs r) =
   loss r + (\<Sum>(x, t, i) \<leftarrow> concat bs. cross_entropy c (snd (forward c m x)) t)"
  by (induction bs arbitrary: r) (simp_all add: add_batch_def)

lemma consumed_batches_Nil_iff: "consumed_batches n_batches bs = [] \<longleftrightarrow> bs = []"
  by (auto simp: consumed_batches_def split: option.splits)

lemma gen_batches_uncapped:
  "\<not> (\<exists>n. n_batches = Some n \<and> n \<noteq> 0) \<Longrightarrow>
   gen_batches c m n_batches i bs (r, p, q) =
     (fold (add_batch c m) bs r,
      p @ map (\<lambda>(x, t, i). i) (concat bs),
      q @ map (\<lambda>(x, t, i). pred c m x) (concat bs))"
proof (induction bs arbitrary: i r p q)
  case Nil
  then show ?case by simp
next
  case (Cons b bs)
  have "map (pred c m) (images b) = map (\<lambda>(x, t, i). pred c m x) b"
    by (auto simp: images_def)
  with Cons show ?case
    by (auto simp: cap_reached_def Let_def indices_def split: option.splits)
qed

lemma gen_batches_capped:
  "n \<noteq> 0 \<Longrightarrow>
   gen_batches c m (Some n) i bs (r, p, q) =
     (fold (add_batch c m) (take (nat (n - i) + 1) bs) r,
      p @ map (\<lambda>(x, t, i). i) (concat (take (nat (n - i) + 1) bs)),
      q @ map (\<lambda>(x, t, i). pred c m x) (concat (take (nat (n - i) + 1) bs)))"
proof (induction bs arbitrary: i r p q)
  case Nil
  then show ?case by simp
next
  case (Cons b bs)
  show ?case
  proof (cases "n \<le> i")
    case True
    then show ?thesis using Cons.prems by (auto simp: cap_reached_def indices_def images_def)
  next
    case False
    then have "nat (n - i) = Suc (nat (n - (i + 1)))" by simp
    then show ?thesis using False Cons.prems Cons.IH [of "i + 1"]
      by (auto simp: cap_reached_def Let_def indices_def images_def)
  qed
qed

lemma gen_batches_fold:
  "gen_batches c m n_batches 0 bs (r, p, q) =
     (fold (add_batch c m) (consumed_batches n_batches bs) r,
      p @ map (\<lambda>(x, t, i). i) (concat (consumed_batches n_batches bs)),
      q @ map (\<lambda>(x, t, i). pred c m x) (concat (consumed_batches n_batches bs)))"
proof (cases "\<exists>n. n_batches = Some n \<and> n \<noteq> 0")
  case True
  then show ?thesis by (auto simp: consumed_batches_def gen_batches_capped)
next
  case False
  then show ?thesis
    by (auto simp: consumed_batches_def gen_batches_uncapped split: option.splits)
qed

subsection \<open>The cap on the number of batches\<close>

text \<open>
  X1. With the cap \<open>n_batches = k > 0\<close> on a loader of more than \<open>k\<close> batches, the loop of
  \<open>evaluate\<close> takes \<open>k + 1\<close> batches: the test \<^verbatim>\<open>batch_idx >= n_batches\<close> comes after the
  batch with the index \<open>k\<close> has been added.
\<close>

theorem evaluate_cap_consumption:
  assumes "0 < k" and "nat k < length loader"
  shows "consumed (eval_batches c m (Some k) 0 loader running0) = nat k + 1"
  using assms
  by (simp add: eval_batches_fold consumed_batches_def fold_add_batch_consumed running0_def)

theorem evaluate_cap_consumption_witness:
  "(0::int) < 1 \<and> nat 1 < length [[(0, 0, 0)], [(1, 0, 1)], [(1, 0, 2::int)]] \<and>
   consumed (eval_batches toy_collab () (Some 1) 0
               [[(0, 0, 0)], [(1, 0, 1)], [(1, 0, 2)]] running0) = nat 1 + 1"
  using evaluate_cap_consumption [of 1 "[[(0, 0, 0)], [(1, 0, 1)], [(1, 0, 2)]]" toy_collab "()"]
  by simp

text \<open>
  C1. The specification has the loop take exactly \<open>k\<close> batches. With the cap 4 of the progress
  probe on a validation loader of six batches of one example each, of which the network
  gets the first four right, the loop takes five, and the accuracy returned is 80 and
  not 100.
\<close>

theorem evaluate_cap_four_of_six:
  "consumed (eval_batches toy_collab () (Some 4) 0
               [[(0, 0, 0)], [(0, 0, 1)], [(0, 0, 2)], [(0, 0, 3)], [(1, 0, 4)], [(1, 0, 5)]]
               running0) = 5 \<and>
   (case evaluate toy_args toy_collab ''Val'' None False (Some 4)
           (toy_trainer\<lparr>dataloader := toy_dataloader\<lparr>val_loader :=
              [[(0, 0, 0)], [(0, 0, 1)], [(0, 0, 2)], [(0, 0, 3)], [(1, 0, 4)], [(1, 0, 5)]]\<rparr>\<rparr>) of
      Inl e \<Rightarrow> False
    | Inr (s', l, acc) \<Rightarrow> acc = Fin 80)"
  by code_simp

subsection \<open>What evaluate changes\<close>

lemma evaluate_InrD:
  assumes "evaluate a c split epoch verbose n_batches s = Inr (s', l, acc)"
  shows "\<exists>loader s1.
           loader_of split (dataloader s) = Inr loader \<and>
           finalize (eval_batches c (model s) n_batches 0 loader running0) = Inr (l, acc) \<and>
           update_best a split epoch acc s = Inr s1 \<and>
           (if verbose then report a epoch l acc s1 = Inr s' else s' = s1)"
  using assms
  by (auto simp: evaluate_def convert_for_print_def split: sum.splits if_splits)

lemma update_best_InrD:
  assumes "update_best a split epoch acc s = Inr s1"
  shows "(if split = ''Test'' \<and> fge acc (best_test_accuracy s)
          then best_test_accuracy s1 = acc \<and> best_test_epoch s1 = epoch
          else s1 = s)"
  using assms
  by (auto simp: update_best_def convert_for_print_def Let_def split: if_splits)

lemma update_best_frame:
  assumes "update_best a split epoch acc s = Inr s1"
  shows "dataloader s1 = dataloader s \<and> model s1 = model s \<and> events s1 = events s \<and>
         lr s1 = lr s \<and> last_epoch s1 = last_epoch s \<and> iter s1 = iter s"
  using assms
  by (auto simp: update_best_def convert_for_print_def Let_def split: if_splits)

lemma report_InrD:
  assumes "report a epoch l acc s1 = Inr s2"
  shows "best_test_accuracy s2 = best_test_accuracy s1 \<and>
         best_test_epoch s2 = (case epoch of None \<Rightarrow> Some 0 | Some e \<Rightarrow> best_test_epoch s1)"
  using assms
  by (auto simp: report_def Let_def split: if_splits option.splits)

lemma report_frame:
  assumes "report a epoch l acc s1 = Inr s2"
  shows "dataloader s2 = dataloader s1 \<and> model s2 = model s1 \<and> events s2 = events s1 \<and>
         lr s2 = lr s1 \<and> last_epoch s2 = last_epoch s1 \<and> iter s2 = iter s1"
  using assms
  by (auto simp: report_def Let_def split: if_splits option.splits)

lemma evaluate_frame:
  assumes "evaluate a c split epoch verbose n_batches s = Inr (s', l, acc)"
  shows "dataloader s' = dataloader s \<and> model s' = model s \<and> events s' = events s \<and>
         lr s' = lr s \<and> last_epoch s' = last_epoch s \<and> iter s' = iter s"
proof -
  from evaluate_InrD [OF assms] obtain loader s1 where
    u: "update_best a split epoch acc s = Inr s1" and
    r: "if verbose then report a epoch l acc s1 = Inr s' else s' = s1"
    by blast
  show ?thesis
  proof (cases verbose)
    case True
    with r have "report a epoch l acc s1 = Inr s'" by simp
    from report_frame [OF this] update_best_frame [OF u] show ?thesis by simp
  next
    case False
    with r update_best_frame [OF u] show ?thesis by simp
  qed
qed

lemma evaluate_best_cases:
  assumes "evaluate a c split epoch verbose n_batches s = Inr (s', l, acc)"
  shows "best_test_accuracy s' =
           (if split = ''Test'' \<and> fge acc (best_test_accuracy s) then acc
            else best_test_accuracy s)"
    and "best_test_epoch s' =
           (if verbose \<and> epoch = None then Some 0
            else if split = ''Test'' \<and> fge acc (best_test_accuracy s) then epoch
            else best_test_epoch s)"
proof -
  from evaluate_InrD [OF assms] obtain s1 where
    u: "update_best a split epoch acc s = Inr s1" and
    r: "if verbose then report a epoch l acc s1 = Inr s' else s' = s1"
    by blast
  have eq: "best_test_accuracy s' = best_test_accuracy s1 \<and>
            best_test_epoch s' = (if verbose \<and> epoch = None then Some 0 else best_test_epoch s1)"
  proof (cases verbose)
    case True
    with r have "report a epoch l acc s1 = Inr s'" by simp
    from report_InrD [OF this] True show ?thesis by (simp split: option.splits)
  next
    case False
    with r show ?thesis by simp
  qed
  from update_best_InrD [OF u] eq
  show "best_test_accuracy s' =
           (if split = ''Test'' \<and> fge acc (best_test_accuracy s) then acc
            else best_test_accuracy s)"
    by (auto split: if_splits)
  from update_best_InrD [OF u] eq
  show "best_test_epoch s' =
           (if verbose \<and> epoch = None then Some 0
            else if split = ''Test'' \<and> fge acc (best_test_accuracy s) then epoch
            else best_test_epoch s)"
    by (auto split: if_splits)
qed

lemma evaluate_Val_quiet:
  assumes "evaluate a c ''Val'' epoch False n_batches s = Inr (s', l, acc)"
  shows "s' = s"
proof -
  from evaluate_InrD [OF assms] obtain s1 where
    "update_best a ''Val'' epoch acc s = Inr s1" and "s' = s1"
    by auto
  then show ?thesis by (simp add: update_best_def)
qed

lemma fge_trans: "fge z y \<Longrightarrow> fge y x \<Longrightarrow> fge z x"
  by (cases x; cases y; cases z) auto

subsection \<open>The best record\<close>

text \<open>
  C3. Across the calls of \<open>evaluate\<close> on the test split that a run makes (each with its
  epoch number), the best accuracy never decreases, and the best record is replaced
  exactly when the new accuracy is greater than or equal to the stored one: on a tie the
  later epoch becomes the best epoch. Otherwise both fields stay as they were.
\<close>

theorem evaluate_best_record:
  assumes "evaluate a c ''Test'' (Some e) verbose n_batches s = Inr (s', l, acc)"
  shows "(fge acc (best_test_accuracy s) \<longrightarrow>
            best_test_accuracy s' = acc \<and> best_test_epoch s' = Some e) \<and>
         (\<not> fge acc (best_test_accuracy s) \<longrightarrow>
            best_test_accuracy s' = best_test_accuracy s \<and>
            best_test_epoch s' = best_test_epoch s) \<and>
         (best_test_accuracy s' = best_test_accuracy s \<or>
            fge (best_test_accuracy s') (best_test_accuracy s))"
proof -
  from evaluate_InrD [OF assms] obtain loader s1 where
    u: "update_best a ''Test'' (Some e) acc s = Inr s1" and
    r: "if verbose then report a (Some e) l acc s1 = Inr s' else s' = s1"
    by blast
  have eq: "best_test_accuracy s' = best_test_accuracy s1 \<and> best_test_epoch s' = best_test_epoch s1"
  proof (cases verbose)
    case True
    with r have "report a (Some e) l acc s1 = Inr s'" by simp
    from report_InrD [OF this] show ?thesis by simp
  next
    case False
    with r show ?thesis by simp
  qed
  from update_best_InrD [OF u] eq show ?thesis
    by (auto split: if_splits)
qed

theorem evaluate_best_record_witness:
  "\<exists>s' l acc.
     evaluate toy_args toy_collab ''Test'' (Some 1) True None toy_trainer = Inr (s', l, acc) \<and>
     fge acc (best_test_accuracy toy_trainer) \<and>
     best_test_accuracy s' = acc \<and> best_test_epoch s' = Some 1 \<and> acc = Fin 50"
proof -
  have "\<not> isl (evaluate toy_args toy_collab ''Test'' (Some 1) True None toy_trainer)"
    by code_simp
  then obtain s' l acc where
    r: "evaluate toy_args toy_collab ''Test'' (Some 1) True None toy_trainer = Inr (s', l, acc)"
    by (cases "evaluate toy_args toy_collab ''Test'' (Some 1) True None toy_trainer") auto
  have "snd (snd (projr (evaluate toy_args toy_collab ''Test'' (Some 1) True None toy_trainer)))
        = Fin 50"
    by code_simp
  with r have "acc = Fin 50" by simp
  with evaluate_best_record [OF r] r show ?thesis
    by (simp add: toy_trainer_def)
qed

text \<open>
  C4, as amended. A call of \<open>evaluate\<close> on the test split with \<open>verbose\<close> false replaces the
  best record by the accuracy and the epoch when the accuracy is greater than or equal
  to the stored best, and leaves it unchanged otherwise: the update does not depend on
  \<open>verbose\<close>.
\<close>

theorem evaluate_quiet_best_record:
  assumes "evaluate a c ''Test'' epoch False n_batches s = Inr (s', l, acc)"
  shows "(fge acc (best_test_accuracy s) \<longrightarrow>
            best_test_accuracy s' = acc \<and> best_test_epoch s' = epoch) \<and>
         (\<not> fge acc (best_test_accuracy s) \<longrightarrow>
            best_test_accuracy s' = best_test_accuracy s \<and>
            best_test_epoch s' = best_test_epoch s)"
proof -
  from evaluate_InrD [OF assms] have "update_best a ''Test'' epoch acc s = Inr s'"
    by auto
  from update_best_InrD [OF this] show ?thesis by (auto split: if_splits)
qed

theorem evaluate_quiet_best_record_witness:
  "\<exists>s' l acc.
     evaluate toy_args toy_collab ''Test'' (Some 5) False None toy_trainer = Inr (s', l, acc) \<and>
     fge acc (best_test_accuracy toy_trainer) \<and>
     best_test_accuracy s' = acc \<and> best_test_epoch s' = Some 5"
proof -
  have "\<not> isl (evaluate toy_args toy_collab ''Test'' (Some 5) False None toy_trainer)"
    by code_simp
  then obtain s' l acc where
    r: "evaluate toy_args toy_collab ''Test'' (Some 5) False None toy_trainer = Inr (s', l, acc)"
    by (cases "evaluate toy_args toy_collab ''Test'' (Some 5) False None toy_trainer") auto
  have "snd (snd (projr (evaluate toy_args toy_collab ''Test'' (Some 5) False None toy_trainer)))
        = Fin 50"
    by code_simp
  with r have "acc = Fin 50" by simp
  with evaluate_quiet_best_record [OF r] r show ?thesis
    by (simp add: toy_trainer_def)
qed

text \<open>
  C4 as the specification states it fails: a call with \<open>verbose\<close> false changes both
  fields of the best record.
\<close>

theorem evaluate_quiet_updates_best:
  "(case evaluate toy_args toy_collab ''Test'' (Some 5) False None toy_trainer of
      Inl e \<Rightarrow> False
    | Inr (s', l, acc) \<Rightarrow>
        best_test_accuracy toy_trainer = Fin 0 \<and> best_test_epoch toy_trainer = Some 0 \<and>
        best_test_accuracy s' = Fin 50 \<and> best_test_epoch s' = Some 5)"
  by code_simp

text \<open>
  C10. A verbose call of \<open>evaluate\<close> on the test split with no epoch number leaves the
  best epoch at 0, whatever it was; and the call returns when the test loader has a
  batch and, in evaluation-only mode, neither log is switched on.
\<close>

theorem evaluate_no_epoch:
  "(test_loader (dataloader s) \<noteq> [] \<and> \<not> ((filelogger a \<or> tensorboard a) \<and> eval_only a) \<longrightarrow>
      (\<exists>s' l acc. evaluate a c ''Test'' None True n_batches s = Inr (s', l, acc))) \<and>
   (\<forall>s' l acc. evaluate a c ''Test'' None True n_batches s = Inr (s', l, acc) \<longrightarrow>
      best_test_epoch s' = Some 0)"
proof (intro conjI impI allI)
  fix s' l acc
  assume "evaluate a c ''Test'' None True n_batches s = Inr (s', l, acc)"
  from evaluate_InrD [OF this] obtain s1 where "report a None l acc s1 = Inr s'"
    by auto
  from report_InrD [OF this] show "best_test_epoch s' = Some 0" by simp
next
  assume a: "test_loader (dataloader s) \<noteq> [] \<and> \<not> ((filelogger a \<or> tensorboard a) \<and> eval_only a)"
  then have "consumed (eval_batches c (model s) n_batches 0 (test_loader (dataloader s)) running0) \<noteq> 0"
    by (simp add: eval_batches_fold fold_add_batch_consumed consumed_batches_Nil_iff)
  with a show "\<exists>s' l acc. evaluate a c ''Test'' None True n_batches s = Inr (s', l, acc)"
    by (auto simp: evaluate_def loader_of_def finalize_def update_best_def report_def Let_def)
qed

theorem evaluate_no_epoch_witness:
  "\<exists>s' l acc.
     evaluate toy_eval_args toy_collab ''Test'' None True None
       (toy_trainer\<lparr>best_test_accuracy := Fin 90, best_test_epoch := Some 7\<rparr>) = Inr (s', l, acc) \<and>
     best_test_epoch s' = Some 0"
proof -
  have "test_loader (dataloader (toy_trainer\<lparr>best_test_accuracy := Fin 90, best_test_epoch := Some 7\<rparr>)) \<noteq> [] \<and>
        \<not> ((filelogger toy_eval_args \<or> tensorboard toy_eval_args) \<and> eval_only toy_eval_args)"
    by (simp add: toy_trainer_def toy_dataloader_def toy_eval_args_def toy_args_def)
  with evaluate_no_epoch [of "toy_trainer\<lparr>best_test_accuracy := Fin 90, best_test_epoch := Some 7\<rparr>"
      toy_eval_args toy_collab None]
  show ?thesis by blast
qed

subsection \<open>What train_val leaves alone\<close>

lemma train_batches_frame:
  "train_batches a c i bs (s, v) = Inr (s', v') \<Longrightarrow> same_run s s' \<and> lr s' = lr s"
proof (induction bs arbitrary: i s v)
  case Nil
  then show ?case by (simp add: same_run_def)
next
  case (Cons b bs)
  obtain m' batch_loss where ts: "train_step c (lr s) (model s) b = (m', batch_loss)"
    by (cases "train_step c (lr s) (model s) b")
  define s1 where "s1 = s\<lparr>model := m', iter := iter s + 1\<rparr>"
  have s1: "same_run s s1 \<and> lr s1 = lr s" by (simp add: s1_def same_run_def)
  show ?case
  proof (cases "i mod log_interval a = 0")
    case True
    with Cons.prems ts obtain s2 v_loss v_acc where
      ev: "evaluate a c ''Val'' None False (Some 4) s1 = Inr (s2, v_loss, v_acc)" and
      rest: "train_batches a c (i + 1) bs
               (log_iter a (convert_for_print (Fin batch_loss)) (convert_for_print v_loss)
                  (convert_for_print v_acc) s2,
                \<lparr>train_loss = Some (convert_for_print (Fin batch_loss)),
                   val_loss = Some (convert_for_print v_loss),
                   val_acc = Some (convert_for_print v_acc)\<rparr>) = Inr (s', v')"
      by (auto simp: s1_def Let_def split: if_splits sum.splits)
    from evaluate_Val_quiet [OF ev] have "s2 = s1" .
    with Cons.IH [OF rest] s1 show ?thesis
      by (auto simp: same_run_def log_iter_def)
  next
    case False
    with Cons.prems ts have "train_batches a c (i + 1) bs (s1, v) = Inr (s', v')"
      by (auto simp: s1_def Let_def split: if_splits)
    from Cons.IH [OF this] s1 show ?thesis by (auto simp: same_run_def)
  qed
qed

lemma reduce_on_plateau_frame:
  assumes "reduce_on_plateau a c (s, v) = Inr (s', v')"
  shows "same_run s s' \<and> (\<not> lr_reducer a \<longrightarrow> lr s' = lr s)"
proof (cases "lr_reducer a")
  case False
  with assms show ?thesis by (simp add: reduce_on_plateau_def same_run_def)
next
  case True
  with assms obtain s1 v_loss v_acc where
    ev: "evaluate a c ''Val'' None False None s = Inr (s1, v_loss, v_acc)" and
    s': "s' = (case reducer_step c v_loss (model s1) (lr s1) of
                 (m', lr') \<Rightarrow> s1\<lparr>model := m', lr := lr'\<rparr>)"
    by (auto simp: reduce_on_plateau_def Let_def split: sum.splits if_splits prod.splits)
  from evaluate_Val_quiet [OF ev] s' True show ?thesis
    by (auto simp: same_run_def split: prod.splits)
qed

lemma log_epoch_frame:
  assumes "log_epoch a epoch v s = Inr s'"
  shows "same_run s s' \<and> lr s' = lr s"
  using assms
  by (auto simp: log_epoch_def same_run_def split: option.splits if_splits)

lemma train_val_frame:
  assumes "train_val a c epoch s = Inr s'"
  shows "same_run s s' \<and> (\<not> lr_reducer a \<longrightarrow> lr s' = lr s)"
proof -
  from assms obtain s1 v1 s2 v2 where
    1: "train_batches a c 0 (train_loader (dataloader s))
          (s, \<lparr>train_loss = None, val_loss = None, val_acc = None\<rparr>) = Inr (s1, v1)" and
    2: "reduce_on_plateau a c (s1, v1) = Inr (s2, v2)" and
    3: "log_epoch a epoch v2 s2 = Inr s'"
    by (auto simp: train_val_def split: sum.splits)
  from train_batches_frame [OF 1] reduce_on_plateau_frame [OF 2] log_epoch_frame [OF 3]
  show ?thesis by (auto simp: same_run_def)
qed

subsection \<open>The metrics\<close>

text \<open>
  C6. An evaluation pass over a loader with no batch ends in \<open>ZeroDivisionError\<close>, and
  nothing catches it: when training has gone through, the epoch of the driver and the
  run of epochs end in the same error.
\<close>

theorem evaluate_empty_stream:
  assumes "loader_of split (dataloader s) = Inr []"
  shows "evaluate a c split epoch verbose n_batches s = Inl ZeroDivisionError \<and>
         (split = ''Test'' \<longrightarrow>
            (\<forall>e s1 rest. train_val a c e (emit (TrainVal e (lr s)) s) = Inr s1 \<longrightarrow>
               supervised_epoch a c e s = Inl ZeroDivisionError \<and>
               train_epochs a c (e # rest) s = Inl ZeroDivisionError))"
proof (intro conjI impI allI)
  show "evaluate a c split epoch verbose n_batches s = Inl ZeroDivisionError"
    using assms by (simp add: evaluate_def finalize_def running0_def)
next
  fix e s1 rest
  assume t: "split = ''Test''" and tv: "train_val a c e (emit (TrainVal e (lr s)) s) = Inr s1"
  from train_val_frame [OF tv] have "dataloader s1 = dataloader s"
    by (simp add: same_run_def emit_def)
  with assms t have "loader_of ''Test'' (dataloader (emit (EvaluateTest e) s1)) = Inr []"
    by (simp add: emit_def)
  then have "evaluate a c ''Test'' (Some e) True None (emit (EvaluateTest e) s1)
             = Inl ZeroDivisionError"
    by (simp add: evaluate_def finalize_def running0_def)
  with tv show "supervised_epoch a c e s = Inl ZeroDivisionError"
    by (simp add: supervised_epoch_def)
  then show "train_epochs a c (e # rest) s = Inl ZeroDivisionError" by simp
qed

theorem evaluate_empty_stream_witness:
  "loader_of ''Test'' (dataloader (toy_trainer\<lparr>dataloader := toy_dataloader\<lparr>test_loader := []\<rparr>\<rparr>))
     = Inr [] \<and>
   evaluate toy_args toy_collab ''Test'' (Some 1) True None
     (toy_trainer\<lparr>dataloader := toy_dataloader\<lparr>test_loader := []\<rparr>\<rparr>) = Inl ZeroDivisionError \<and>
   train_epochs toy_args toy_collab [1, 2]
     (toy_trainer\<lparr>dataloader := toy_dataloader\<lparr>test_loader := []\<rparr>\<rparr>) = Inl ZeroDivisionError"
proof -
  let ?s = "toy_trainer\<lparr>dataloader := toy_dataloader\<lparr>test_loader := []\<rparr>\<rparr>"
  have h: "loader_of ''Test'' (dataloader ?s) = Inr []"
    by (simp add: loader_of_def)
  have "\<not> isl (train_val toy_args toy_collab 1 (emit (TrainVal 1 (lr ?s)) ?s))"
    by code_simp
  then obtain s1 where tv: "train_val toy_args toy_collab 1 (emit (TrainVal 1 (lr ?s)) ?s) = Inr s1"
    by (cases "train_val toy_args toy_collab 1 (emit (TrainVal 1 (lr ?s)) ?s)") auto
  from evaluate_empty_stream [OF h, of toy_args toy_collab "Some 1" True None] tv h
  show ?thesis by blast
qed

text \<open>
  C8. Two batches of four examples, four predictions right in the first and two in the
  second: the loop has counted 8 examples and 6 correct ones, and the metrics are
  finalized with the accuracy \<open>100 * 6 / 8 = 75\<close>, which is what \<open>evaluate\<close> returns for a
  loader of these two batches.
\<close>

theorem two_batches_accuracy:
  assumes "length b1 = 4" and "length b2 = 4"
    and "length (filter (\<lambda>(x, t, i). pred c m x = t) b1) = 4"
    and "length (filter (\<lambda>(x, t, i). pred c m x = t) b2) = 2"
  shows "n_examples (eval_batches c m None 0 [b1, b2] running0) = 8 \<and>
         correct (eval_batches c m None 0 [b1, b2] running0) = 6 \<and>
         (\<exists>l. finalize (eval_batches c m None 0 [b1, b2] running0) = Inr (l, Fin 75)) \<and>
         (\<forall>a s split epoch verbose s' l acc.
            model s = m \<and> loader_of split (dataloader s) = Inr [b1, b2] \<and>
            evaluate a c split epoch verbose None s = Inr (s', l, acc) \<longrightarrow> acc = Fin 75)"
proof -
  let ?r = "eval_batches c m None 0 [b1, b2] running0"
  have n: "n_examples ?r = 8" and k: "correct ?r = 6" and b: "consumed ?r = 2"
    using assms by (simp_all add: add_batch_def running0_def Let_def cap_reached_def)
  then have f: "finalize ?r = Inr (tensor_div (loss ?r) 8, Fin 75)"
    by (simp add: finalize_def tensor_div_def)
  have "acc = Fin 75"
    if "model s = m \<and> loader_of split (dataloader s) = Inr [b1, b2] \<and>
        evaluate a c split epoch verbose None s = Inr (s', l, acc)"
    for a s split epoch verbose s' l acc
  proof -
    from that evaluate_InrD [of a c split epoch verbose None s s' l acc]
    have "finalize ?r = Inr (l, acc)" by auto
    with f show ?thesis by simp
  qed
  with n k f show ?thesis by blast
qed

theorem two_batches_accuracy_witness:
  "n_examples (eval_batches toy_collab () None 0
     [[(0, 0, 0), (0, 0, 1), (1, 1, 2), (1, 1, 3)], [(0, 0, 4), (1, 1, 5), (0, 1, 6), (1, 0, 7)]]
     running0) = 8 \<and>
   (\<exists>l. finalize (eval_batches toy_collab () None 0
     [[(0, 0, 0), (0, 0, 1), (1, 1, 2), (1, 1, 3)], [(0, 0, 4), (1, 1, 5), (0, 1, 6), (1, 0, 7)]]
     running0) = Inr (l, Fin 75))"
proof -
  let ?b1 = "[(0, 0, 0), (0, 0, 1), (1, 1, 2), (1, 1, 3)] :: int batch"
  let ?b2 = "[(0, 0, 4), (1, 1, 5), (0, 1, 6), (1, 0, 7)] :: int batch"
  have 1: "length ?b1 = 4" and 2: "length ?b2 = 4" by simp_all
  have 3: "length (filter (\<lambda>(x, t, i). pred toy_collab () x = t) ?b1) = 4" by code_simp
  have 4: "length (filter (\<lambda>(x, t, i). pred toy_collab () x = t) ?b2) = 2" by code_simp
  from two_batches_accuracy [OF 1 2 3 4] show ?thesis by blast
qed

subsection \<open>The traces of the drivers\<close>

lemma finish_epoch_InrD:
  assumes "finish_epoch a e s = Inr s'"
  shows "events s' = events s @
           (if lr_scheduler a then [SchedulerStep] else []) @
           (if e mod checkpoint_save_interval a = 0 then [TorchSave e] else []) @ [TimerTic]"
    and "dataloader s' = dataloader s"
    and "best_test_accuracy s' = best_test_accuracy s"
    and "last_epoch s' = (if lr_scheduler a then last_epoch s + 1 else last_epoch s)"
    and "lr s' = (if lr_scheduler a
                  then lr s * lr_decay_factor a ^ count_list (lr_schedule a) (last_epoch s + 1)
                  else lr s)"
    and "checkpoint_save_interval a \<noteq> 0"
  using assms
  by (auto simp: finish_epoch_def emit_def scheduler_step_def Let_def split: if_splits)

lemma supervised_epoch_InrD:
  assumes "supervised_epoch a c e s = Inr s'"
  shows "events s' = events s @ epoch_calls a e (lr s)"
    and "dataloader s' = dataloader s"
    and "last_epoch s' = (if lr_scheduler a then last_epoch s + 1 else last_epoch s)"
    and "\<not> lr_reducer a \<Longrightarrow>
         lr s' = (if lr_scheduler a
                  then lr s * lr_decay_factor a ^ count_list (lr_schedule a) (last_epoch s + 1)
                  else lr s)"
    and "checkpoint_save_interval a \<noteq> 0"
proof -
  from assms obtain s1 s2 l acc where
    1: "train_val a c e (emit (TrainVal e (lr s)) s) = Inr s1" and
    2: "evaluate a c ''Test'' (Some e) True None (emit (EvaluateTest e) s1) = Inr (s2, l, acc)" and
    3: "finish_epoch a e s2 = Inr s'"
    by (auto simp: supervised_epoch_def split: sum.splits)
  note f1 = train_val_frame [OF 1] and f2 = evaluate_frame [OF 2] and f3 = finish_epoch_InrD [OF 3]
  show "events s' = events s @ epoch_calls a e (lr s)"
    using f1 f2 f3(1) by (simp add: same_run_def emit_def epoch_calls_def)
  show "dataloader s' = dataloader s"
    using f1 f2 f3(2) by (simp add: same_run_def emit_def)
  show "last_epoch s' = (if lr_scheduler a then last_epoch s + 1 else last_epoch s)"
    using f1 f2 f3(4) by (simp add: same_run_def emit_def)
  show "lr s' = (if lr_scheduler a
                  then lr s * lr_decay_factor a ^ count_list (lr_schedule a) (last_epoch s + 1)
                  else lr s)" if "\<not> lr_reducer a"
    using that f1 f2 f3(5) by (simp add: same_run_def emit_def)
  show "checkpoint_save_interval a \<noteq> 0" by (rule f3(6))
qed

lemma train_epochs_trace:
  "train_epochs a c es s = Inr s' \<Longrightarrow>
   dataloader s' = dataloader s \<and>
   (\<exists>lrs. length lrs = length es \<and>
      events s' = events s @ concat (map2 (epoch_calls a) es lrs))"
proof (induction es arbitrary: s)
  case Nil
  then show ?case by simp
next
  case (Cons e es)
  from Cons.prems obtain s1 where
    1: "supervised_epoch a c e s = Inr s1" and 2: "train_epochs a c es s1 = Inr s'"
    by (auto split: sum.splits)
  from Cons.IH [OF 2] obtain lrs where
    d: "dataloader s' = dataloader s1" and n: "length lrs = length es" and
    ev: "events s' = events s1 @ concat (map2 (epoch_calls a) es lrs)"
    by blast
  from supervised_epoch_InrD(1,2) [OF 1] d ev
  have "dataloader s' = dataloader s"
    and "events s' = events s @ concat (map2 (epoch_calls a) (e # es) (lr s # lrs))"
    by simp_all
  with n show ?case by (intro conjI exI [of _ "lr s # lrs"]) simp_all
qed

lemma saved_epochs_append: "saved_epochs (xs @ ys) = saved_epochs xs @ saved_epochs ys"
  by (induction xs rule: saved_epochs.induct) simp_all

lemma train_lrs_append: "train_lrs (xs @ ys) = train_lrs xs @ train_lrs ys"
  by (induction xs rule: train_lrs.induct) simp_all

lemma saved_epochs_epoch_calls:
  "saved_epochs (epoch_calls a e r) = (if e mod checkpoint_save_interval a = 0 then [e] else [])"
  by (simp add: epoch_calls_def)

lemma train_lrs_epoch_calls: "train_lrs (epoch_calls a e r) = [r]"
  by (simp add: epoch_calls_def)

lemma saved_epochs_calls:
  "length lrs = length es \<Longrightarrow>
   saved_epochs (concat (map2 (epoch_calls a) es lrs)) =
   filter (\<lambda>N. N mod checkpoint_save_interval a = 0) es"
  by (induction es lrs rule: list_induct2')
     (simp_all add: saved_epochs_append saved_epochs_epoch_calls)

lemma close_out_InrD:
  assumes "close_out a s = Inr s'"
  shows "saved_epochs (events s') = saved_epochs (events s)"
    and "train_lrs (events s') = train_lrs (events s)"
  using assms
  by (auto simp: close_out_def emit_def Let_def saved_epochs_append train_lrs_append
      split: if_splits)

lemma train_epochs_lrs:
  assumes "lr_scheduler a" and "\<not> lr_reducer a"
  shows "train_epochs a c es s = Inr s' \<Longrightarrow>
         train_lrs (events s') =
           train_lrs (events s) @ sched_lrs a (lr s) (last_epoch s) (length es)"
proof (induction es arbitrary: s)
  case Nil
  then show ?case by simp
next
  case (Cons e es)
  from Cons.prems obtain s1 where
    1: "supervised_epoch a c e s = Inr s1" and 2: "train_epochs a c es s1 = Inr s'"
    by (auto split: sum.splits)
  from supervised_epoch_InrD(1,3,4) [OF 1] assms
  have "events s1 = events s @ epoch_calls a e (lr s)"
    and "last_epoch s1 = last_epoch s + 1"
    and "lr s1 = lr s * lr_decay_factor a ^ count_list (lr_schedule a) (last_epoch s + 1)"
    by simp_all
  with Cons.IH [OF 2] show ?case
    by (simp add: train_lrs_append train_lrs_epoch_calls)
qed

lemma init_toy: "init toy_args () toy_dataloader = Inr toy_trainer"
  by (simp add: init_def toy_args_def toy_trainer_def)

lemma supervised_epoch_best:
  assumes "supervised_epoch a c e s = Inr s'"
  shows "best_test_accuracy s' = best_test_accuracy s \<or>
         fge (best_test_accuracy s') (best_test_accuracy s)"
proof -
  from assms obtain s1 s2 l acc where
    1: "train_val a c e (emit (TrainVal e (lr s)) s) = Inr s1" and
    2: "evaluate a c ''Test'' (Some e) True None (emit (EvaluateTest e) s1) = Inr (s2, l, acc)" and
    3: "finish_epoch a e s2 = Inr s'"
    by (auto simp: supervised_epoch_def split: sum.splits)
  from train_val_frame [OF 1] have "best_test_accuracy s1 = best_test_accuracy s"
    by (simp add: same_run_def emit_def)
  with evaluate_best_cases(1) [OF 2] finish_epoch_InrD(3) [OF 3] show ?thesis
    by (auto simp: emit_def split: if_splits)
qed

subsection \<open>Frozen labels\<close>

lemma ssl_epoch_frozen:
  assumes "stop_label_generation (dataloader s)"
  shows "ssl_epoch a c e (s, p_idx, p_lab) =
           (case supervised_epoch a c e s of Inl x \<Rightarrow> Inl x | Inr s' \<Rightarrow> Inr (s', p_idx, p_lab))"
proof (cases "train_val a c e (emit (TrainVal e (lr s)) s)")
  case (Inl x)
  with assms show ?thesis by (simp add: ssl_epoch_def supervised_epoch_def)
next
  case (Inr s1)
  from train_val_frame [OF Inr] have d1: "dataloader s1 = dataloader s"
    by (simp add: same_run_def emit_def)
  show ?thesis
  proof (cases "evaluate a c ''Test'' (Some e) True None (emit (EvaluateTest e) s1)")
    case (Inl x)
    with assms Inr show ?thesis by (simp add: ssl_epoch_def supervised_epoch_def)
  next
    case (Inr r)
    obtain s2 l acc where r: "r = (s2, l, acc)" by (cases r)
    from evaluate_frame [OF Inr [unfolded r]] d1 have "dataloader s2 = dataloader s"
      by (simp add: emit_def)
    with assms \<open>train_val a c e (emit (TrainVal e (lr s)) s) = Inr s1\<close> Inr r show ?thesis
      by (simp add: ssl_epoch_def supervised_epoch_def split: sum.splits)
  qed
qed

lemma ssl_epochs_frozen:
  "stop_label_generation (dataloader s) \<Longrightarrow>
   ssl_epochs a c es (s, p_idx, p_lab) =
     (case train_epochs a c es s of Inl x \<Rightarrow> Inl x | Inr s' \<Rightarrow> Inr (s', p_idx, p_lab))"
proof (induction es arbitrary: s)
  case Nil
  then show ?case by simp
next
  case (Cons e es)
  show ?case
  proof (cases "supervised_epoch a c e s")
    case (Inl x)
    with Cons.prems show ?thesis by (simp add: ssl_epoch_frozen)
  next
    case (Inr s1)
    from supervised_epoch_InrD(2) [OF Inr] Cons.prems
    have "stop_label_generation (dataloader s1)" by simp
    from Cons.IH [OF this] Inr Cons.prems show ?thesis by (simp add: ssl_epoch_frozen)
  qed
qed

text \<open>
  C2. Once \<open>stop_label_generation\<close> is true at the start of an epoch of the semi-supervised
  driver, the remaining epochs \<open>es\<close> call neither \<open>ssl_init_epoch\<close> nor
  \<open>generate_labels_for_ssl\<close>: the two prediction lists and the data loader are at the end
  what they were, and the calls made are, epoch by epoch, training, the test evaluation,
  the step of the schedule when one is configured, the checkpoint when it is due and the
  timer, until the epochs are exhausted.
\<close>

theorem ssl_label_freeze:
  assumes "stop_label_generation (dataloader s)"
    and "ssl_epochs a c es (s, p_idx, p_lab) = Inr (s', p_idx', p_lab')"
  shows "p_idx' = p_idx \<and> p_lab' = p_lab \<and> dataloader s' = dataloader s \<and>
         (\<exists>lrs. length lrs = length es \<and>
            events s' = events s @ concat (map2 (epoch_calls a) es lrs))"
proof -
  from assms ssl_epochs_frozen [OF assms(1), of a c es p_idx p_lab]
  have "train_epochs a c es s = Inr s'" and "p_idx' = p_idx" and "p_lab' = p_lab"
    by (auto split: sum.splits)
  with train_epochs_trace [of a c es s s'] show ?thesis by simp
qed

theorem ssl_label_freeze_witness:
  "stop_label_generation
     (dataloader (toy_trainer\<lparr>dataloader := toy_dataloader\<lparr>stop_label_generation := True\<rparr>\<rparr>)) \<and>
   (\<exists>s' lrs.
      ssl_epochs toy_args toy_collab [2, 3, 4, 5]
        (toy_trainer\<lparr>dataloader := toy_dataloader\<lparr>stop_label_generation := True\<rparr>\<rparr>, [4, 5], [0, 1])
        = Inr (s', [4, 5], [0, 1]) \<and>
      length lrs = 4 \<and>
      events s' = concat (map2 (epoch_calls toy_args) [2, 3, 4, 5] lrs))"
proof -
  let ?s = "toy_trainer\<lparr>dataloader := toy_dataloader\<lparr>stop_label_generation := True\<rparr>\<rparr>"
  have h: "stop_label_generation (dataloader ?s)" by simp
  have "\<not> isl (ssl_epochs toy_args toy_collab [2, 3, 4, 5] (?s, [4, 5], [0, 1]))"
    by code_simp
  then obtain s' p q where
    r: "ssl_epochs toy_args toy_collab [2, 3, 4, 5] (?s, [4, 5], [0, 1]) = Inr (s', p, q)"
    by (cases "ssl_epochs toy_args toy_collab [2, 3, 4, 5] (?s, [4, 5], [0, 1])") auto
  from ssl_label_freeze [OF h r] obtain lrs where
    pq: "p = [4, 5]" "q = [0, 1]" and
    n: "length lrs = length [2, 3, 4, 5::int]" and
    ev: "events s' = events ?s @ concat (map2 (epoch_calls toy_args) [2, 3, 4, 5] lrs)"
    by blast
  from r pq have r': "ssl_epochs toy_args toy_collab [2, 3, 4, 5] (?s, [4, 5], [0, 1])
                      = Inr (s', [4, 5], [0, 1])"
    by (simp only:)
  from n have n': "length lrs = 4" by simp
  from ev have ev': "events s' = concat (map2 (epoch_calls toy_args) [2, 3, 4, 5] lrs)"
    by (simp add: toy_trainer_def)
  from h r' n' ev' show ?thesis by blast
qed

text \<open>
  X3. Once the labels are frozen, the epochs of the semi-supervised driver are those of
  the supervised driver: they fail when the supervised ones fail, with the same error,
  and otherwise end in the same trainer, with the prediction lists as they were.
\<close>

theorem ssl_frozen_is_supervised:
  assumes "stop_label_generation (dataloader s)"
  shows "ssl_epochs a c es (s, p_idx, p_lab) =
           (case train_epochs a c es s of
              Inl x \<Rightarrow> Inl x
            | Inr s' \<Rightarrow> Inr (s', p_idx, p_lab))"
  using assms by (rule ssl_epochs_frozen)

theorem ssl_frozen_is_supervised_witness:
  "stop_label_generation
     (dataloader (toy_trainer\<lparr>dataloader := toy_dataloader\<lparr>stop_label_generation := True\<rparr>\<rparr>)) \<and>
   ssl_epochs toy_args toy_collab [2, 3]
     (toy_trainer\<lparr>dataloader := toy_dataloader\<lparr>stop_label_generation := True\<rparr>\<rparr>, [4], [0]) =
   (case train_epochs toy_args toy_collab [2, 3]
           (toy_trainer\<lparr>dataloader := toy_dataloader\<lparr>stop_label_generation := True\<rparr>\<rparr>) of
      Inl x \<Rightarrow> Inl x
    | Inr s' \<Rightarrow> Inr (s', [4], [0]))"
proof -
  have h: "stop_label_generation
     (dataloader (toy_trainer\<lparr>dataloader := toy_dataloader\<lparr>stop_label_generation := True\<rparr>\<rparr>))"
    by simp
  from ssl_frozen_is_supervised [OF h] h show ?thesis by blast
qed

subsection \<open>Checkpoints, learning rates and the best accuracy of a run\<close>

text \<open>
  C9. A run of the supervised driver writes its checkpoints at the epochs \<open>N\<close> of
  \<open>1 .. epochs\<close> with \<open>N mod checkpoint_save_interval = 0\<close>, in order, and at no other
  epoch: these are the \<open>N\<close> from 1 to \<open>epochs\<close> that are multiples of the interval. With
  the interval 5 and 12 epochs they are 5 and 10.
\<close>

theorem checkpoints_written:
  assumes "train_val_test a c s = Inr s'"
  shows "saved_epochs (events s') =
           saved_epochs (events s) @
           filter (\<lambda>N. N mod checkpoint_save_interval a = 0) [1..epochs a] \<and>
         (\<forall>N. N \<in> set (filter (\<lambda>N. N mod checkpoint_save_interval a = 0) [1..epochs a]) \<longleftrightarrow>
              1 \<le> N \<and> N \<le> epochs a \<and> checkpoint_save_interval a dvd N) \<and>
         (checkpoint_save_interval a = 5 \<and> epochs a = 12 \<longrightarrow>
            saved_epochs (events s') = saved_epochs (events s) @ [5, 10])"
proof -
  from assms obtain s1 where
    1: "train_epochs a c [1..epochs a] (s\<lparr>iter := 0\<rparr>) = Inr s1" and 2: "close_out a s1 = Inr s'"
    by (auto simp: train_val_test_def split: sum.splits)
  from train_epochs_trace [OF 1] obtain lrs where
    n: "length lrs = length [1..epochs a]" and
    ev: "events s1 = events s @ concat (map2 (epoch_calls a) [1..epochs a] lrs)"
    by auto
  from ev close_out_InrD(1) [OF 2] saved_epochs_calls [OF n, of a]
  have main: "saved_epochs (events s') =
           saved_epochs (events s) @
           filter (\<lambda>N. N mod checkpoint_save_interval a = 0) [1..epochs a]"
    by (simp add: saved_epochs_append)
  have iff: "\<forall>N. N \<in> set (filter (\<lambda>N. N mod checkpoint_save_interval a = 0) [1..epochs a]) \<longleftrightarrow>
              1 \<le> N \<and> N \<le> epochs a \<and> checkpoint_save_interval a dvd N"
    by (auto simp: mod_eq_0_iff_dvd)
  have "filter (\<lambda>N. N mod 5 = 0) [1..12] = [5, 10::int]" by code_simp
  with main iff show ?thesis by simp
qed

theorem checkpoints_written_witness:
  "\<exists>s'. train_val_test toy_args toy_collab toy_trainer = Inr s' \<and>
         checkpoint_save_interval toy_args = 5 \<and> epochs toy_args = 12 \<and>
         saved_epochs (events s') = [5, 10]"
proof -
  have "\<not> isl (train_val_test toy_args toy_collab toy_trainer)"
    by code_simp
  then obtain s' where r: "train_val_test toy_args toy_collab toy_trainer = Inr s'"
    by (cases "train_val_test toy_args toy_collab toy_trainer") auto
  have a: "checkpoint_save_interval toy_args = 5 \<and> epochs toy_args = 12"
    by (simp add: toy_args_def)
  from checkpoints_written [OF r] a
  have "saved_epochs (events s') = saved_epochs (events toy_trainer) @ [5, 10]" by blast
  then have "saved_epochs (events s') = [5, 10]" by (simp add: toy_trainer_def)
  with r a show ?thesis by blast
qed

text \<open>
  C5, as amended. With the step-wise schedule alone, milestones \<open>[3, 6]\<close>, the factor
  \<open>1/10\<close> and the initial rate \<open>1/10\<close>, a run of seven epochs of the supervised driver
  from a fresh trainer enters training at the rates
  \<open>1/10, 1/10, 1/10, 1/100, 1/100, 1/100, 1/1000\<close>: the counter of the schedule is 0
  during epoch 1 and is stepped at the end of every epoch, so the rate drops once three
  and once six epochs are over.
\<close>

theorem step_schedule_lrs:
  assumes "lr_scheduler a" and "\<not> lr_reducer a"
    and "lr_schedule a = [3, 6]" and "lr_decay_factor a = 1 / 10"
    and "learning_rate a = 1 / 10" and "epochs a = 7"
    and "init a m dl = Inr s" and "train_val_test a c s = Inr s'"
  shows "train_lrs (events s') = [1 / 10, 1 / 10, 1 / 10, 1 / 100, 1 / 100, 1 / 100, 1 / 1000]"
proof -
  from assms(1,3,5,7) have s: "lr s = 1 / 10" "last_epoch s = 0" "events s = []"
    by (auto simp: init_def split: if_splits)
  from assms(8) obtain s1 where
    1: "train_epochs a c [1..epochs a] (s\<lparr>iter := 0\<rparr>) = Inr s1" and 2: "close_out a s1 = Inr s'"
    by (auto simp: train_val_test_def split: sum.splits)
  have "length [1..epochs a] = 7" using assms(6) by simp
  with train_epochs_lrs [OF assms(1,2) 1] s close_out_InrD(2) [OF 2]
  have "train_lrs (events s') = sched_lrs a (1 / 10) 0 7" by simp
  also have "\<dots> = [1 / 10, 1 / 10, 1 / 10, 1 / 100, 1 / 100, 1 / 100, 1 / 1000]"
    by (simp add: eval_nat_numeral assms(3,4))
  finally show ?thesis .
qed

theorem step_schedule_lrs_witness:
  "\<exists>s'. init (toy_args\<lparr>epochs := 7\<rparr>) () toy_dataloader = Inr toy_trainer \<and>
         train_val_test (toy_args\<lparr>epochs := 7\<rparr>) toy_collab toy_trainer = Inr s' \<and>
         train_lrs (events s') = [1 / 10, 1 / 10, 1 / 10, 1 / 100, 1 / 100, 1 / 100, 1 / 1000]"
proof -
  let ?a = "toy_args\<lparr>epochs := 7\<rparr>"
  have i: "init ?a () toy_dataloader = Inr toy_trainer"
    by (simp add: init_def toy_args_def toy_trainer_def)
  have "\<not> isl (train_val_test ?a toy_collab toy_trainer)"
    by code_simp
  then obtain s' where r: "train_val_test ?a toy_collab toy_trainer = Inr s'"
    by (cases "train_val_test ?a toy_collab toy_trainer") auto
  have "lr_scheduler ?a" "\<not> lr_reducer ?a" "lr_schedule ?a = [3, 6]"
    "lr_decay_factor ?a = 1 / 10" "learning_rate ?a = 1 / 10" "epochs ?a = 7"
    by (simp_all add: toy_args_def)
  from step_schedule_lrs [OF this i r] i r show ?thesis by blast
qed

text \<open>
  C5 as the specification states it fails: in that run the third epoch is still trained
  at the rate \<open>1/10\<close>
  and the sixth at \<open>1/100\<close>, so the rates are not
  \<open>1/10, 1/10, 1/100, 1/100, 1/100, 1/1000, 1/1000\<close>.
\<close>

theorem step_schedule_not_as_claimed:
  "(case init (toy_args\<lparr>epochs := 7\<rparr>) () toy_dataloader of
      Inl e \<Rightarrow> False
    | Inr s \<Rightarrow>
        (case train_val_test (toy_args\<lparr>epochs := 7\<rparr>) toy_collab s of
           Inl e \<Rightarrow> False
         | Inr s' \<Rightarrow>
             train_lrs (events s') \<noteq>
               [1 / 10, 1 / 10, 1 / 100, 1 / 100, 1 / 100, 1 / 1000, 1 / 1000] \<and>
             train_lrs (events s') ! 2 = 1 / 10 \<and> train_lrs (events s') ! 5 = 1 / 100))"
  by code_simp

text \<open>
  X2. Over the epochs of the supervised driver the best test accuracy never decreases:
  at the end of the epochs it is what it was or greater than or equal to it.
\<close>

theorem train_epochs_best_monotone:
  "train_epochs a c es s = Inr s' \<Longrightarrow>
   best_test_accuracy s' = best_test_accuracy s \<or>
   fge (best_test_accuracy s') (best_test_accuracy s)"
proof (induction es arbitrary: s)
  case Nil
  then show ?case by simp
next
  case (Cons e es)
  from Cons.prems obtain s1 where
    1: "supervised_epoch a c e s = Inr s1" and 2: "train_epochs a c es s1 = Inr s'"
    by (auto split: sum.splits)
  from supervised_epoch_best [OF 1] Cons.IH [OF 2] show ?case
    by (auto intro: fge_trans)
qed

theorem train_epochs_best_monotone_witness:
  "\<exists>s'. train_epochs toy_args toy_collab [1, 2, 3] toy_trainer = Inr s' \<and>
         best_test_accuracy toy_trainer = Fin 0 \<and> best_test_accuracy s' = Fin 50 \<and>
         fge (best_test_accuracy s') (best_test_accuracy toy_trainer)"
proof -
  have "\<not> isl (train_epochs toy_args toy_collab [1, 2, 3] toy_trainer)"
    by code_simp
  then obtain s' where r: "train_epochs toy_args toy_collab [1, 2, 3] toy_trainer = Inr s'"
    by (cases "train_epochs toy_args toy_collab [1, 2, 3] toy_trainer") auto
  have "best_test_accuracy (projr (train_epochs toy_args toy_collab [1, 2, 3] toy_trainer)) = Fin 50"
    by code_simp
  with r have b: "best_test_accuracy s' = Fin 50" by simp
  from train_epochs_best_monotone [OF r] b r show ?thesis
    by (auto simp: toy_trainer_def)
qed

subsection \<open>The pseudo-label generator\<close>

lemma argmax_from_spec:
  assumes "row = pre @ xs" and "i = int (length pre)" and "0 \<le> bi" and "bi < i"
    and "bv = row ! nat bi" and "\<forall>k < length pre. row ! k \<le> bv" and "\<forall>k < nat bi. row ! k < bv"
  shows "0 \<le> argmax_from bi bv i xs \<and> nat (argmax_from bi bv i xs) < length row \<and>
         (\<forall>k < length row. row ! k \<le> row ! nat (argmax_from bi bv i xs)) \<and>
         (\<forall>k < nat (argmax_from bi bv i xs). row ! k < row ! nat (argmax_from bi bv i xs))"
  using assms
proof (induction xs arbitrary: pre bi bv i)
  case Nil
  then show ?case by auto
next
  case (Cons x xs)
  have row: "row = (pre @ [x]) @ xs" using Cons.prems(1) by simp
  have x: "row ! length pre = x" using Cons.prems(1) by simp
  show ?case
  proof (cases "bv < x")
    case True
    have "\<forall>k < length (pre @ [x]). row ! k \<le> x"
      using Cons.prems(6) True x by (auto simp: less_Suc_eq)
    moreover have "\<forall>k < nat i. row ! k < x"
      using Cons.prems(2,6) True by auto
    moreover have "x = row ! nat i" using x Cons.prems(2) by simp
    ultimately have "0 \<le> argmax_from i x (i + 1) xs \<and>
         nat (argmax_from i x (i + 1) xs) < length row \<and>
         (\<forall>k < length row. row ! k \<le> row ! nat (argmax_from i x (i + 1) xs)) \<and>
         (\<forall>k < nat (argmax_from i x (i + 1) xs). row ! k < row ! nat (argmax_from i x (i + 1) xs))"
      using Cons.prems(2) by (intro Cons.IH [OF row]) auto
    with True show ?thesis by simp
  next
    case False
    have "\<forall>k < length (pre @ [x]). row ! k \<le> bv"
      using Cons.prems(6) False x by (auto simp: less_Suc_eq)
    then have "0 \<le> argmax_from bi bv (i + 1) xs \<and>
         nat (argmax_from bi bv (i + 1) xs) < length row \<and>
         (\<forall>k < length row. row ! k \<le> row ! nat (argmax_from bi bv (i + 1) xs)) \<and>
         (\<forall>k < nat (argmax_from bi bv (i + 1) xs). row ! k < row ! nat (argmax_from bi bv (i + 1) xs))"
      using Cons.prems(2,3,4,5,7) by (intro Cons.IH [OF row]) auto
    with False show ?thesis by simp
  qed
qed

lemma argmax_spec:
  assumes "row \<noteq> []"
  shows "0 \<le> argmax row \<and> nat (argmax row) < length row \<and>
         (\<forall>k < length row. row ! k \<le> row ! nat (argmax row)) \<and>
         (\<forall>k < nat (argmax row). row ! k < row ! nat (argmax row))"
proof -
  from assms obtain x xs where row: "row = x # xs" by (cases row) auto
  have "0 \<le> argmax_from 0 x 1 xs \<and> nat (argmax_from 0 x 1 xs) < length row \<and>
         (\<forall>k < length row. row ! k \<le> row ! nat (argmax_from 0 x 1 xs)) \<and>
         (\<forall>k < nat (argmax_from 0 x 1 xs). row ! k < row ! nat (argmax_from 0 x 1 xs))"
    by (rule argmax_from_spec [where pre = "[x]"]) (simp_all add: row)
  then show ?thesis by (simp add: argmax_def row)
qed

text \<open>
  C7. When \<open>generate_labels_for_ssl\<close> returns, its two lists are the dataset indices and
  the predictions of the examples of the batches it took, in the order of the batches
  and of the examples within each: they have one length, the label at a position is the
  arg-max of the class scores of the example whose index is at that position (an index
  of a largest score, when the row has a score), and the indices are distinct when the
  examples taken have distinct indices.
\<close>

theorem generate_labels_result:
  assumes "generate_labels_for_ssl a c epoch n_batches verbose s = Inr (s', idxs, labs)"
  shows "let exs = concat (consumed_batches n_batches (unsupervised_train_loader (dataloader s)))
         in idxs = map (\<lambda>(x, t, i). i) exs \<and>
            labs = map (\<lambda>(x, t, i). pred c (model s) x) exs \<and>
            length idxs = length labs \<and>
            (\<forall>k < length exs.
               case exs ! k of (x, t, i) \<Rightarrow>
                 idxs ! k = i \<and> labs ! k = argmax (fst (forward c (model s) x)) \<and>
                 (fst (forward c (model s) x) \<noteq> [] \<longrightarrow>
                    0 \<le> labs ! k \<and> nat (labs ! k) < length (fst (forward c (model s) x)) \<and>
                    (\<forall>j < length (fst (forward c (model s) x)).
                       fst (forward c (model s) x) ! j
                         \<le> fst (forward c (model s) x) ! nat (labs ! k)))) \<and>
            (distinct (map (\<lambda>(x, t, i). i) exs) \<longrightarrow> distinct idxs)"
proof -
  define exs where
    "exs = concat (consumed_batches n_batches (unsupervised_train_loader (dataloader s)))"
  from assms have i: "idxs = map (\<lambda>(x, t, i). i) exs"
    and l: "labs = map (\<lambda>(x, t, i). pred c (model s) x) exs"
    by (auto simp: generate_labels_for_ssl_def gen_batches_fold exs_def
        split: sum.splits if_splits)
  have per: "\<forall>k < length exs.
               case exs ! k of (x, t, i) \<Rightarrow>
                 idxs ! k = i \<and> labs ! k = argmax (fst (forward c (model s) x)) \<and>
                 (fst (forward c (model s) x) \<noteq> [] \<longrightarrow>
                    0 \<le> labs ! k \<and> nat (labs ! k) < length (fst (forward c (model s) x)) \<and>
                    (\<forall>j < length (fst (forward c (model s) x)).
                       fst (forward c (model s) x) ! j
                         \<le> fst (forward c (model s) x) ! nat (labs ! k)))"
  proof (intro allI impI)
    fix k
    assume k: "k < length exs"
    obtain x t i where ex: "exs ! k = (x, t, i)" by (cases "exs ! k")
    from k ex i l have 1: "idxs ! k = i"
      and 2: "labs ! k = argmax (fst (forward c (model s) x))"
      by (simp_all add: pred_def)
    from argmax_spec [of "fst (forward c (model s) x)"] 1 2 ex
    show "case exs ! k of (x, t, i) \<Rightarrow>
            idxs ! k = i \<and> labs ! k = argmax (fst (forward c (model s) x)) \<and>
            (fst (forward c (model s) x) \<noteq> [] \<longrightarrow>
               0 \<le> labs ! k \<and> nat (labs ! k) < length (fst (forward c (model s) x)) \<and>
               (\<forall>j < length (fst (forward c (model s) x)).
                  fst (forward c (model s) x) ! j
                    \<le> fst (forward c (model s) x) ! nat (labs ! k)))"
      by simp
  qed
  from i l per show ?thesis
    unfolding Let_def exs_def [symmetric] by simp
qed

theorem generate_labels_result_witness:
  "\<exists>s'. generate_labels_for_ssl toy_args toy_collab 1 (Some 4) True toy_trainer
           = Inr (s', [4, 5], [0, 1]) \<and>
         concat (consumed_batches (Some 4) (unsupervised_train_loader (dataloader toy_trainer)))
           = [(0, 0, 4), (1, 1, 5)] \<and>
         distinct [4, 5 :: int]"
proof -
  have "\<not> isl (generate_labels_for_ssl toy_args toy_collab 1 (Some 4) True toy_trainer)"
    by code_simp
  then obtain s' idxs labs where
    r: "generate_labels_for_ssl toy_args toy_collab 1 (Some 4) True toy_trainer
        = Inr (s', idxs, labs)"
    by (cases "generate_labels_for_ssl toy_args toy_collab 1 (Some 4) True toy_trainer") auto
  have e: "concat (consumed_batches (Some 4) (unsupervised_train_loader (dataloader toy_trainer)))
           = [(0, 0, 4), (1, 1, 5)]"
    by (simp add: consumed_batches_def toy_trainer_def toy_dataloader_def)
  have p: "pred toy_collab (model toy_trainer) 0 = 0" "pred toy_collab (model toy_trainer) 1 = 1"
    by code_simp+
  from generate_labels_result [OF r] have "idxs = [4, 5] \<and> labs = [0, 1]"
    unfolding Let_def e using p by simp
  with r e show ?thesis by simp
qed

end
